theory Spec2Isabelle
  imports Main
begin

text \<open>
  The extension scripts of the agent-kernel repository, embedded in HOL: the command gate
  of the gh-agent extension, the identity resolver and the \<open>github\<close> tool of the github
  extension, the concept marker loader of the collaboration extension and the workspace
  tool. Every function keeps its name from the source. The sections of definitions come
  first, the properties after them.
\<close>

section \<open>JavaScript strings\<close>

text \<open>
  A JavaScript string is modelled as a \<^typ>\<open>string\<close>: one \<^typ>\<open>char\<close> per UTF-16 code unit,
  for the code units below \<open>0x100\<close>. On that alphabet the class \<open>\s\<close> of a regular
  expression and the characters removed by \<open>String.prototype.trim\<close> are the same seven
  code units: tab, line feed, vertical tab, form feed, carriage return, space and the
  no-break space.
\<close>

definition is_space :: "char \<Rightarrow> bool" where
  "is_space c = (c = CHR 0x09 \<or> c = CHR 0x0A \<or> c = CHR 0x0B \<or> c = CHR 0x0C
                 \<or> c = CHR 0x0D \<or> c = CHR 0x20 \<or> c = CHR 0xA0)"

text \<open>\<open>s.trim()\<close>\<close>

definition trim :: "string \<Rightarrow> string" where
  "trim s = rev (dropWhile is_space (rev (dropWhile is_space s)))"

text \<open>
  \<open>s.split(/\s+/)\<close>: the pieces between maximal runs of white space. The empty string
  gives one empty piece, and a run at either end gives an empty piece there.
\<close>

function split_ws :: "string \<Rightarrow> string list" where
  "split_ws [] = [[]]"
| "split_ws (c # cs) =
     (if is_space c then [] # split_ws (dropWhile is_space cs)
      else (case split_ws cs of p # ps \<Rightarrow> (c # p) # ps | [] \<Rightarrow> [[c]]))"
  by pat_completeness auto
termination
  by (relation "measure length") (auto simp: length_dropWhile_le less_Suc_eq_le)

text \<open>\<open>s.split("/")\<close> and the like: split at every occurrence of one character.\<close>

fun split_char :: "char \<Rightarrow> string \<Rightarrow> string list" where
  "split_char d [] = [[]]"
| "split_char d (c # cs) =
     (if c = d then [] # split_char d cs
      else (case split_char d cs of p # ps \<Rightarrow> (c # p) # ps | [] \<Rightarrow> [[c]]))"

text \<open>\<open>s.startsWith(p)\<close> and \<open>s.includes(p)\<close>\<close>

definition startsWith :: "string \<Rightarrow> string \<Rightarrow> bool" where
  "startsWith s p = (take (length p) s = p)"

fun str_includes :: "string \<Rightarrow> string \<Rightarrow> bool" where
  "str_includes [] p = (p = [])"
| "str_includes (c # cs) p = (startsWith (c # cs) p \<or> str_includes cs p)"

text \<open>\<open>xs.join(sep)\<close>\<close>

fun join_with :: "string \<Rightarrow> string list \<Rightarrow> string" where
  "join_with sep [] = []"
| "join_with sep [x] = x"
| "join_with sep (x # y # ys) = x @ sep @ join_with sep (y # ys)"

text \<open>
  \<open>s.toUpperCase()\<close> on the letters \<open>a\<close> to \<open>z\<close>; every other code unit of the
  alphabet is left as it is. The results are only ever compared with the words
  \<open>POST\<close>, \<open>PATCH\<close> and \<open>GET\<close>, which no other code unit below \<open>0x100\<close> maps into.
\<close>

definition upper_char :: "char \<Rightarrow> char" where
  "upper_char c =
     (let n = (of_char c :: nat) in if 97 \<le> n \<and> n \<le> 122 then char_of (n - 32) else c)"

definition toUpperCase :: "string \<Rightarrow> string" where
  "toUpperCase s = map upper_char s"

text \<open>\<open>xs.indexOf(x)\<close>: the first index of \<open>x\<close>, or \<open>-1\<close>.\<close>

fun indexOf :: "'a list \<Rightarrow> 'a \<Rightarrow> int" where
  "indexOf [] x = -1"
| "indexOf (y # ys) x =
     (if y = x then 0 else (let i = indexOf ys x in if i = -1 then -1 else i + 1))"

text \<open>\<open>xs[i]\<close>, which is \<open>undefined\<close> outside the array.\<close>

definition at_index :: "'a list \<Rightarrow> int \<Rightarrow> 'a option" where
  "at_index xs i = (if 0 \<le> i \<and> i < int (length xs) then Some (xs ! nat i) else None)"


section \<open>The command gate of the gh-agent extension\<close>

definition ALLOWED_COMMANDS :: "string list" where
  "ALLOWED_COMMANDS =
     [''issue create'', ''issue comment'', ''issue view'', ''issue list'', ''issue edit'',
      ''pr create'', ''pr comment'', ''pr view'', ''pr list'', ''pr diff'', ''pr review'',
      ''pr edit'',
      ''api repos/*/pulls/*/comments/*/replies'',
      ''api repos/*/issues/comments/*'',
      ''api repos/*/pulls/comments/*'']"

record gate_result =
  allowed :: bool
  reason :: "string option"

text \<open>The loop of \<open>matchesPattern\<close>, run on two segment lists of the same length.\<close>

fun segments_match :: "string list \<Rightarrow> string list \<Rightarrow> bool" where
  "segments_match (p # ps) (e # es) =
     (if p = ''*'' then segments_match ps es
      else if p \<noteq> e then False
      else segments_match ps es)"
| "segments_match _ _ = True"

definition matchesPattern :: "string \<Rightarrow> string \<Rightarrow> bool" where
  "matchesPattern endpoint pattern =
     (let endpointParts = split_char CHR ''/'' endpoint;
          patternParts = split_char CHR ''/'' pattern
      in if length endpointParts \<noteq> length patternParts then False
         else segments_match patternParts endpointParts)"

text \<open>The first loop of \<open>isCommandAllowed\<close>: an exact match with an entry that is not an API entry.\<close>

fun matches_plain :: "string \<Rightarrow> string list \<Rightarrow> bool" where
  "matches_plain cmdSubcmd [] = False"
| "matches_plain cmdSubcmd (a # as) =
     (if \<not> startsWith a ''api '' \<and> cmdSubcmd = a then True
      else matches_plain cmdSubcmd as)"

text \<open>
  The HTTP method of an API command: the token after the first \<open>-X\<close>, in upper case
  (\<open>undefined\<close>, here \<open>None\<close>, when \<open>-X\<close> is the last token), and \<open>GET\<close> without \<open>-X\<close>.
\<close>

definition api_method :: "string list \<Rightarrow> string option" where
  "api_method parts =
     (let methodArg = indexOf parts ''-X''
      in if methodArg \<noteq> -1 then map_option toUpperCase (at_index parts (methodArg + 1))
         else Some ''GET'')"

text \<open>
  The second loop: the first API entry whose pattern matches the endpoint decides, by the
  method; \<open>None\<close> when the loop ends without a match.
\<close>

fun matches_api :: "string list \<Rightarrow> string \<Rightarrow> string list \<Rightarrow> gate_result option" where
  "matches_api parts endpoint [] = None"
| "matches_api parts endpoint (a # as) =
     (if startsWith a ''api '' then
        (let pattern = drop 4 a in
         if matchesPattern endpoint pattern then
           (let method = api_method parts in
            if str_includes pattern ''/replies'' \<and> method \<noteq> Some ''POST'' then
              Some \<lparr>allowed = False,
                    reason = Some (''API endpoint '' @ endpoint @ '' only allows POST method'')\<rparr>
            else if (str_includes pattern ''/issues/comments/'' \<or> str_includes pattern ''/pulls/comments/'')
                    \<and> \<not> str_includes pattern ''/replies''
                    \<and> method \<noteq> Some ''PATCH'' \<and> method \<noteq> Some ''GET'' then
              Some \<lparr>allowed = False,
                    reason = Some (''API endpoint '' @ endpoint @ '' only allows GET or PATCH method'')\<rparr>
            else Some \<lparr>allowed = True, reason = None\<rparr>)
         else matches_api parts endpoint as)
      else matches_api parts endpoint as)"

definition not_in_allow_list :: "string \<Rightarrow> gate_result" where
  "not_in_allow_list cmdSubcmd =
     \<lparr>allowed = False,
      reason = Some (''Command not in allow list: '' @ cmdSubcmd @ ''. Allowed: ''
                     @ join_with '', '' (filter (\<lambda>c. \<not> startsWith c ''api '') ALLOWED_COMMANDS))\<rparr>"

definition isCommandAllowed :: "string \<Rightarrow> gate_result" where
  "isCommandAllowed command =
     (let trimmed = trim command;
          parts = split_ws trimmed
      in if length parts < 2 then
           \<lparr>allowed = False,
            reason = Some ''Command requires at least: gh_agent <command> <subcommand>''\<rparr>
         else
           (let cmdSubcmd = parts ! 0 @ '' '' @ parts ! 1 in
            if matches_plain cmdSubcmd ALLOWED_COMMANDS then \<lparr>allowed = True, reason = None\<rparr>
            else if parts ! 0 = ''api'' then
              (case matches_api parts (parts ! 1) ALLOWED_COMMANDS of
                 Some r \<Rightarrow> r
               | None \<Rightarrow> not_in_allow_list cmdSubcmd)
            else not_in_allow_list cmdSubcmd))"


section \<open>Identity switching by repository owner\<close>

record accounts =
  agent :: string
  personal :: string

definition ACCOUNTS :: accounts where
  "ACCOUNTS = \<lparr>agent = ''john-agent'', personal = ''dyreby''\<rparr>"

text \<open>The owner is a string or \<open>null\<close> (\<open>None\<close>).\<close>

definition getAccountForRepo :: "string option \<Rightarrow> string" where
  "getAccountForRepo repoOwner =
     (if repoOwner = Some ''dyreby'' then agent ACCOUNTS else personal ACCOUNTS)"

text \<open>
  The two regular expressions of \<open>parseRepoOwner\<close> have the shape \<open>lit([^/]+)\/\<close>, with
  \<open>lit\<close> a literal text. A match that starts at the head of \<open>s\<close> reads \<open>lit\<close>, then the
  longest run of characters other than \<open>/\<close>, which must not be empty, then a \<open>/\<close>; a
  shorter run is followed by a character that is not \<open>/\<close>, so backtracking finds
  nothing more. The group is the run.
\<close>

definition owner_match_here :: "string \<Rightarrow> string \<Rightarrow> string option" where
  "owner_match_here lit s =
     (if startsWith s lit then
        (let rest = drop (length lit) s;
             owner = takeWhile (\<lambda>c. c \<noteq> CHR ''/'') rest;
             after = dropWhile (\<lambda>c. c \<noteq> CHR ''/'') rest
         in if owner \<noteq> [] \<and> after \<noteq> [] then Some owner else None)
      else None)"

text \<open>
  \<open>s.match(re)\<close> for such an expression, which has no anchor: the leftmost position of
  \<open>s\<close> where it matches, and \<open>null\<close> when there is none.
\<close>

fun owner_search :: "string \<Rightarrow> string \<Rightarrow> string option" where
  "owner_search lit [] = owner_match_here lit []"
| "owner_search lit (c # cs) =
     (case owner_match_here lit (c # cs) of
        Some owner \<Rightarrow> Some owner
      | None \<Rightarrow> owner_search lit cs)"

definition parseRepoOwner :: "string \<Rightarrow> string option" where
  "parseRepoOwner remoteUrl =
     (case owner_search ''git@github.com:'' remoteUrl of
        Some owner \<Rightarrow> Some owner
      | None \<Rightarrow>
          (case owner_search ''https://github.com/'' remoteUrl of
             Some owner \<Rightarrow> Some owner
           | None \<Rightarrow> None))"


section \<open>Concept markers and recursive loading\<close>

text \<open>
  A JavaScript \<open>Map\<close> is modelled as an association list with distinct keys in the
  order of insertion, which is the order a \<open>for ... of\<close> loop visits it in;
  \<open>m.get(k)\<close> is \<^term>\<open>map_of m k\<close>. A \<open>Set\<close> is a list without repetitions.
\<close>

text \<open>\<open>m.set(k, v)\<close>: a present key keeps its place, a new key goes last.\<close>

fun map_set :: "'k \<Rightarrow> 'v \<Rightarrow> ('k \<times> 'v) list \<Rightarrow> ('k \<times> 'v) list" where
  "map_set k v [] = [(k, v)]"
| "map_set k v ((k', v') # m) =
     (if k' = k then (k, v) # m else (k', v') # map_set k v m)"

text \<open>\<open>m.has(k)\<close>\<close>

definition map_has :: "('k \<times> 'v) list \<Rightarrow> 'k \<Rightarrow> bool" where
  "map_has m k = (map_of m k \<noteq> None)"

text \<open>\<open>m.get(k) ?? 0\<close>\<close>

definition get_or_zero :: "('k \<times> nat) list \<Rightarrow> 'k \<Rightarrow> nat" where
  "get_or_zero m k = (case map_of m k of None \<Rightarrow> 0 | Some c \<Rightarrow> c)"

text \<open>\<open>s.add(x)\<close>\<close>

definition set_add :: "'a \<Rightarrow> 'a list \<Rightarrow> 'a list" where
  "set_add x xs = (if x \<in> set xs then xs else xs @ [x])"

text \<open>The class \<open>[a-zA-Z0-9_-]\<close>.\<close>

definition is_name_char :: "char \<Rightarrow> bool" where
  "is_name_char c =
     (let n = (of_char c :: nat)
      in (97 \<le> n \<and> n \<le> 122) \<or> (65 \<le> n \<and> n \<le> 90) \<or> (48 \<le> n \<and> n \<le> 57)
         \<or> c = CHR ''_'' \<or> c = CHR ''-'')"

text \<open>
  \<open>CONCEPT_MARKER_REGEX\<close> matched at the head of \<open>s\<close>: a backtick and \<open>cf:\<close>, the longest
  run of name characters, which must not be empty, and a backtick. The run is greedy and a
  shorter one is followed by a name character, not a backtick, so there is at most one
  match at a position. The result is the name (the group) and the text after the match.
\<close>

definition marker_here :: "string \<Rightarrow> (string \<times> string) option" where
  "marker_here s =
     (if startsWith s ''`cf:'' then
        (let rest = drop 4 s;
             name = takeWhile is_name_char rest;
             after = dropWhile is_name_char rest
         in if name \<noteq> [] \<and> startsWith after ''`'' then Some (name, drop 1 after) else None)
      else None)"

text \<open>
  \<open>text.matchAll(CONCEPT_MARKER_REGEX)\<close>, as the list of the names matched: the scan goes
  from left to right, and after a match it resumes behind the closing backtick.
\<close>

function matchAll :: "string \<Rightarrow> string list" where
  "matchAll [] = []"
| "matchAll (c # cs) =
     (case marker_here (c # cs) of
        Some (name, rest) \<Rightarrow> name # matchAll rest
      | None \<Rightarrow> matchAll cs)"
  by pat_completeness auto
termination
proof (relation "measure length")
  show "wf (measure length)" by simp
next
  fix c cs
  show "(cs, c # cs) \<in> measure length" by simp
next
  fix c :: char and cs x2 name rest
  assume "marker_here (c # cs) = Some x2" and "(name, rest) = x2"
  then have "rest = drop 1 (dropWhile is_name_char (drop 4 (c # cs)))"
    by (auto simp: marker_here_def Let_def split: if_splits)
  moreover have "length (dropWhile is_name_char (drop 4 (c # cs))) \<le> length (drop 4 (c # cs))"
    by (rule length_dropWhile_le)
  ultimately show "(rest, c # cs) \<in> measure length" by simp
qed

text \<open>The loop of \<open>parseConceptMarkers\<close> over the matches.\<close>

fun count_matches :: "string list \<Rightarrow> (string \<times> nat) list \<Rightarrow> (string \<times> nat) list" where
  "count_matches [] counts = counts"
| "count_matches (name # ms) counts =
     count_matches ms (map_set name (get_or_zero counts name + 1) counts)"

definition parseConceptMarkers :: "string \<Rightarrow> (string \<times> nat) list" where
  "parseConceptMarkers text = count_matches (matchAll text) []"

text \<open>
  The marker syntax in the words of the specification, to compare \<open>parseConceptMarkers\<close>
  with: a name is one or more characters of the class, the marker of a name is the name
  between \<open>`cf:\<close> and a backtick, and its occurrences in a text are the positions where
  the text goes on with the marker.
\<close>

definition valid_name :: "string \<Rightarrow> bool" where
  "valid_name name = (name \<noteq> [] \<and> list_all is_name_char name)"

definition marker_text :: "string \<Rightarrow> string" where
  "marker_text name = ''`cf:'' @ name @ ''`''"

fun count_occurrences :: "string \<Rightarrow> string \<Rightarrow> nat" where
  "count_occurrences p [] = (if p = [] then 1 else 0)"
| "count_occurrences p (c # cs) =
     (if startsWith (c # cs) p then 1 else 0) + count_occurrences p cs"

text \<open>
  Two markers share a backtick when the closing backtick of one is the opening backtick
  of the next, as in \<open>`cf:a`cf:b`\<close>.
\<close>

fun shares_backtick :: "string \<Rightarrow> bool" where
  "shares_backtick [] = False"
| "shares_backtick (c # cs) =
     ((case marker_here (c # cs) of
         Some (name, rest) \<Rightarrow> marker_here (CHR 0x60 # rest) \<noteq> None
       | None \<Rightarrow> False)
      \<or> shares_backtick cs)"

text \<open>The names of the markers at all positions of a text, from left to right.\<close>

fun all_markers :: "string \<Rightarrow> string list" where
  "all_markers [] = []"
| "all_markers (c # cs) =
     (case marker_here (c # cs) of
        Some (name, rest) \<Rightarrow> name # all_markers cs
      | None \<Rightarrow> all_markers cs)"

text \<open>
  The concepts directory: the content of \<open>concepts/<name>.md\<close> for every name whose
  file exists and can be read. \<open>loadConceptFile\<close> gives \<open>null\<close> for every other name.
\<close>

type_synonym concept_files = "(string \<times> string) list"

definition loadConceptFile :: "concept_files \<Rightarrow> string \<Rightarrow> string option" where
  "loadConceptFile files name = map_of files name"

text \<open>
  The three accumulators of \<open>loadConceptsRecursively\<close>. The source shares them by
  reference between the call and its recursive calls; here each call takes them and
  returns them updated.
\<close>

record load_state =
  loaded :: "(string \<times> string) list"
  counts :: "(string \<times> nat) list"
  missing :: "string list"

definition empty_state :: load_state where
  "empty_state = \<lparr>loaded = [], counts = [], missing = []\<rparr>"

text \<open>
  \<open>loadConceptsRecursively\<close> and the body of its \<open>for\<close> loop over the markers of the
  text. \<open>continue\<close> is the loop on the remaining markers.
\<close>

function loadConceptsRecursively :: "concept_files \<Rightarrow> string \<Rightarrow> load_state \<Rightarrow> load_state"
  and load_loop :: "concept_files \<Rightarrow> (string \<times> nat) list \<Rightarrow> load_state \<Rightarrow> load_state"
where
  "loadConceptsRecursively files text st = load_loop files (parseConceptMarkers text) st"
| "load_loop files [] st = st"
| "load_loop files ((name, count) # rest) st =
     (let st1 = st\<lparr>counts := map_set name (get_or_zero (counts st) name + count) (counts st)\<rparr>
      in if map_has (loaded st1) name \<or> name \<in> set (missing st1) then load_loop files rest st1
         else
           (case loadConceptFile files name of
              None \<Rightarrow> load_loop files rest (st1\<lparr>missing := set_add name (missing st1)\<rparr>)
            | Some content \<Rightarrow>
                load_loop files rest
                  (loadConceptsRecursively files content
                     (st1\<lparr>loaded := map_set name content (loaded st1)\<rparr>))))"
  by pat_completeness auto

text \<open>
  The recursion is nested: the loop goes on from the state that the recursive call
  returns. It terminates because a recursive call is made only for a name that has a
  file and is not yet loaded, the name is loaded before the call, and no call removes a
  name from the loaded map.
\<close>

lemma keys_map_set: "fst ` set (map_set k v m) = insert k (fst ` set m)"
  by (induction m) (force simp: image_iff)+

lemma load_keeps_loaded:
  "loadConceptsRecursively_load_loop_dom (Inl (files, text, st)) \<Longrightarrow>
     fst ` set (loaded st) \<subseteq> fst ` set (loaded (loadConceptsRecursively files text st))"
  "loadConceptsRecursively_load_loop_dom (Inr (files, ms, st)) \<Longrightarrow>
     fst ` set (loaded st) \<subseteq> fst ` set (loaded (load_loop files ms st))"
proof (induct rule: loadConceptsRecursively_load_loop.pinduct)
  case (1 files body st)
  then show ?case by (simp add: loadConceptsRecursively.psimps)
next
  case (2 files st)
  then show ?case by (simp add: load_loop.psimps)
next
  case (3 files name count rest st)
  let ?st1 = "st\<lparr>counts := map_set name (get_or_zero (counts st) name + count) (counts st)\<rparr>"
  show ?case
  proof (cases "map_has (loaded ?st1) name \<or> name \<in> set (missing ?st1)")
    case True
    with 3(1) 3(2) [OF refl True] show ?thesis
      by (simp add: load_loop.psimps)
  next
    case False
    show ?thesis
    proof (cases "loadConceptFile files name")
      case None
      with False 3(1) 3(3) [OF refl False None] show ?thesis
        by (simp add: load_loop.psimps)
    next
      case (Some content)
      have a: "fst ` set (loaded (?st1\<lparr>loaded := map_set name content (loaded ?st1)\<rparr>))
               \<subseteq> fst ` set (loaded (loadConceptsRecursively files content
                     (?st1\<lparr>loaded := map_set name content (loaded ?st1)\<rparr>)))"
        using 3(4) [OF refl False Some] .
      have b: "fst ` set (loaded (loadConceptsRecursively files content
                     (?st1\<lparr>loaded := map_set name content (loaded ?st1)\<rparr>)))
               \<subseteq> fst ` set (loaded (load_loop files rest (loadConceptsRecursively files content
                     (?st1\<lparr>loaded := map_set name content (loaded ?st1)\<rparr>))))"
        using 3(5) [OF refl False Some] .
      have c: "fst ` set (loaded st) \<subseteq> fst ` set (loaded (?st1\<lparr>loaded := map_set name content (loaded ?st1)\<rparr>))"
        by (auto simp: keys_map_set)
      from a b c False Some 3(1) show ?thesis
        by (simp add: load_loop.psimps)
    qed
  qed
qed

termination loadConceptsRecursively
proof (relation "inv_image (less_than <*lex*> less_than)
         (\<lambda>x. case x of
            Inl (files, text, st) \<Rightarrow>
              (card (fst ` set files - fst ` set (loaded st)), Suc (length (parseConceptMarkers text)))
          | Inr (files, ms, st) \<Rightarrow>
              (card (fst ` set files - fst ` set (loaded st)), length ms))", goal_cases)
  case 1
  show ?case by (intro wf_inv_image wf_lex_prod wf_less_than)
next
  case (2 files body st)
  show ?case by simp
next
  case (3 files name count rest st x)
  then show ?case by simp
next
  case (4 files name count rest st x)
  then show ?case by simp
next
  case (5 files name count rest st x content)
  have f: "finite (fst ` set files - fst ` set (loaded st))" by simp
  from 5 have in_files: "name \<in> fst ` set files"
    by (auto simp: loadConceptFile_def dest!: map_of_SomeD intro: rev_image_eqI)
  from 5 have not_loaded: "name \<notin> fst ` set (loaded st)"
    by (auto simp: map_has_def map_of_eq_None_iff)
  have "fst ` set files - insert name (fst ` set (loaded st))
        \<subset> fst ` set files - fst ` set (loaded st)"
    using in_files not_loaded by auto
  then have "card (fst ` set files - insert name (fst ` set (loaded st)))
        < card (fst ` set files - fst ` set (loaded st))"
    using f by (intro psubset_card_mono)
  with 5 show ?case by (simp add: keys_map_set)
next
  case (6 files name count rest st x content)
  have "fst ` set (loaded st) \<subseteq> fst ` set (loaded (x\<lparr>loaded := map_set name content (loaded x)\<rparr>))"
    using 6 by (auto simp: keys_map_set)
  also have "\<dots> \<subseteq> fst ` set (loaded (loadConceptsRecursively files content
                 (x\<lparr>loaded := map_set name content (loaded x)\<rparr>)))"
    using load_keeps_loaded(1) [OF 6(4)] .
  finally have "fst ` set files - fst ` set (loaded (loadConceptsRecursively files content
                 (x\<lparr>loaded := map_set name content (loaded x)\<rparr>)))
        \<subseteq> fst ` set files - fst ` set (loaded st)"
    by blast
  then have "card (fst ` set files - fst ` set (loaded (loadConceptsRecursively files content
                 (x\<lparr>loaded := map_set name content (loaded x)\<rparr>))))
        \<le> card (fst ` set files - fst ` set (loaded st))"
    by (intro card_mono) simp_all
  then show ?case by auto
qed





section \<open>Tool results and subprocesses\<close>

text \<open>
  What a tool returns: the text of its one content item, the optional \<open>details\<close> (exit
  code and account) and the \<open>isError\<close> flag, which is \<open>False\<close> where the source leaves
  it out. What \<open>pi.exec\<close> resolves to: exit code and the two output streams.
\<close>

record tool_result =
  result_text :: string
  details :: "(int \<times> string) option"
  isError :: bool

record exec_result =
  code :: int
  stdout :: string
  stderr :: string

text \<open>
  The truth value of an optional string: \<open>undefined\<close>, \<open>null\<close> and the empty string are
  false.
\<close>

definition truthy :: "string option \<Rightarrow> bool" where
  "truthy v = (v \<noteq> None \<and> v \<noteq> Some [])"


section \<open>The workspace tool\<close>

text \<open>
  The world of the workspace tool. Node's \<open>path.join\<close>, \<open>os.homedir\<close>, \<open>os.tmpdir\<close>,
  \<open>fs.existsSync\<close> and \<open>crypto.randomUUID\<close>, the variable \<open>TMUX\<close> of the process
  environment and the answers of \<open>pi.exec\<close> are parameters. What the tool does to the
  world is returned as the list of its effects, in order.
\<close>

record workspace_env =
  path_join :: "string list \<Rightarrow> string"
  homedir :: string
  tmpdir :: string
  existsSync :: "string \<Rightarrow> bool"
  env_TMUX :: "string option"
  pi_exec :: "string \<Rightarrow> string list \<Rightarrow> exec_result"
  randomUUID :: string

datatype effect =
    Exec string "string list"
  | Mkdir string
  | WriteFile string string

record workspace_params =
  repo :: string
  model :: string
  thinking :: string
  context_label :: "string option"
  prompt :: "string option"
  orient :: "bool option"

definition REPOS_BASE :: "workspace_env \<Rightarrow> string" where
  "REPOS_BASE env = path_join env [homedir env, ''repos'']"

definition findRepoPath :: "workspace_env \<Rightarrow> string \<Rightarrow> string \<Rightarrow> string option" where
  "findRepoPath env owner repoName =
     (let path = path_join env [REPOS_BASE env, owner, repoName]
      in if existsSync env path then Some path else None)"

definition buildWindowName :: "string \<Rightarrow> string \<Rightarrow> string option \<Rightarrow> string" where
  "buildWindowName owner repoName ctx =
     (let base = owner @ ''/'' @ repoName
      in if truthy ctx then base @ '' '' @ the ctx else base)"

text \<open>\<open>s.replace(/'/g, "'\\''")\<close>: every single quote becomes quote, backslash, quote, quote.\<close>

definition escape_quotes :: "string \<Rightarrow> string" where
  "escape_quotes s =
     concat (map (\<lambda>c. if c = CHR 0x27 then [CHR 0x27, CHR 0x5C, CHR 0x27, CHR 0x27] else [c]) s)"

definition error_result :: "string \<Rightarrow> tool_result" where
  "error_result t = \<lparr>result_text = t, details = None, isError = True\<rparr>"

definition plain_result :: "string \<Rightarrow> tool_result" where
  "plain_result t = \<lparr>result_text = t, details = None, isError = False\<rparr>"

text \<open>
  The tail of \<open>execute\<close>, from the \<open>send-keys\<close> call on. It is written twice in the
  source, with and without a prompt file, with the same texts.
\<close>

definition start_pi ::
  "workspace_env \<Rightarrow> workspace_params \<Rightarrow> string \<Rightarrow> string \<Rightarrow> string \<Rightarrow> effect list
   \<Rightarrow> tool_result \<times> effect list" where
  "start_pi env params windowName repoPath piCommand done =
     (let args = [''send-keys'', ''-t'', windowName, piCommand, ''Enter''];
          piResult = pi_exec env ''tmux'' args;
          effects = done @ [Exec ''tmux'' args]
      in if code piResult \<noteq> 0 then
           (plain_result (''Opened workspace but failed to start pi: '' @ stderr piResult
              @ [CHR 0x0A] @ ''Window: '' @ windowName @ [CHR 0x0A] @ ''Path: '' @ repoPath),
            effects)
         else
           (plain_result (''Opened workspace: '' @ windowName @ [CHR 0x0A] @ ''Path: '' @ repoPath
              @ [CHR 0x0A] @ ''Started pi with '' @ model params @ '' (thinking: ''
              @ thinking params @ '').'' @ [CHR 0x0A, CHR 0x0A]
              @ ''Switch to that tmux window to continue.''),
            effects))"

text \<open>
  \<open>execute\<close> of the workspace tool: the result and the effects, in the order of the
  source's checks. \<open>mkdir\<close> and \<open>writeFile\<close> are taken to succeed.
\<close>

definition workspace_execute :: "workspace_env \<Rightarrow> workspace_params \<Rightarrow> tool_result \<times> effect list" where
  "workspace_execute env params =
     (let parts = split_char CHR ''/'' (repo params) in
      if length parts \<noteq> 2 then
        (error_result (''Invalid repo format: '' @ [CHR 0x22] @ repo params @ [CHR 0x22]
           @ ''. Expected '' @ [CHR 0x22] @ ''owner/repo'' @ [CHR 0x22] @ ''.''), [])
      else
        (let owner = parts ! 0;
             repoName = parts ! 1;
             repoPath = findRepoPath env owner repoName
         in if \<not> truthy repoPath then
              (error_result (''Repo not found locally: '' @ repo params @ [CHR 0x0A]
                 @ ''Expected at: '' @ path_join env [REPOS_BASE env, owner, repoName]
                 @ [CHR 0x0A, CHR 0x0A] @ ''Clone it first, or check the path.''), [])
            else if \<not> truthy (env_TMUX env) then
              (error_result ''Not running in tmux. The workspace tool requires tmux to open new windows.'',
               [])
            else
              (let windowName = buildWindowName owner repoName (context_label params);
                   args = [''new-window'', ''-n'', windowName, ''-c'', the repoPath];
                   result = pi_exec env ''tmux'' args;
                   opened = [Exec ''tmux'' args]
               in if code result \<noteq> 0 then
                    (error_result (''Failed to open tmux window: '' @ stderr result), opened)
                  else
                    (let modelArgs = ''--model '' @ [CHR 0x27] @ escape_quotes (model params)
                           @ [CHR 0x27] @ '' --thinking '' @ [CHR 0x27]
                           @ escape_quotes (thinking params) @ [CHR 0x27];
                         envVars = [''PI_LOAD_ALL_CONCEPTS=1'']
                           @ (if orient params = Some True then [''PI_WORKSPACE_ORIENT=1''] else []);
                         envPrefix = join_with '' '' envVars
                     in if truthy (prompt params) then
                          (let promptDir = path_join env [tmpdir env, ''pi-workspace''];
                               promptFile = path_join env [promptDir, randomUUID env @ ''.md''];
                               piCommand = envPrefix @ '' pi '' @ modelArgs @ '' @'' @ promptFile
                           in start_pi env params windowName (the repoPath) piCommand
                                (opened @ [Mkdir promptDir, WriteFile promptFile (the (prompt params))]))
                        else
                          start_pi env params windowName (the repoPath)
                            (envPrefix @ '' pi '' @ modelArgs) opened))))"


section \<open>The github tool\<close>

text \<open>
  The regular expressions of the tool are anchored at the start of the text and built
  from six pieces: a literal, an alternative of literals, \<open>\s+\<close>, \<open>.*\<close>, a negative
  lookahead and the word boundary \<open>\b\<close> behind a word character. \<open>re.test(s)\<close> is true
  when some way of matching exists, which is what backtracking finds; \<open>rx_match\<close>
  searches the same choices: how many white-space characters \<open>\s+\<close> takes (at least
  one) and how many characters \<open>.*\<close> takes (none of them a line terminator).
\<close>

datatype rx =
    Lit string
  | One_of "string list"
  | Spaces
  | Any_chars
  | Not_ahead "rx list"
  | Word_end

definition is_line_terminator :: "char \<Rightarrow> bool" where
  "is_line_terminator c = (c = CHR 0x0A \<or> c = CHR 0x0D)"

definition is_word_char :: "char \<Rightarrow> bool" where
  "is_word_char c =
     (let n = (of_char c :: nat)
      in (97 \<le> n \<and> n \<le> 122) \<or> (65 \<le> n \<and> n \<le> 90) \<or> (48 \<le> n \<and> n \<le> 57)
         \<or> c = CHR ''_'')"

fun rx_match :: "rx list \<Rightarrow> string \<Rightarrow> bool" where
  "rx_match [] s = True"
| "rx_match (Lit l # rs) s = (startsWith s l \<and> rx_match rs (drop (length l) s))"
| "rx_match (One_of ls # rs) s =
     list_ex (\<lambda>l. startsWith s l \<and> rx_match rs (drop (length l) s)) ls"
| "rx_match (Spaces # rs) s =
     list_ex (\<lambda>n. rx_match rs (drop n s)) [1 ..< Suc (length (takeWhile is_space s))]"
| "rx_match (Any_chars # rs) s =
     list_ex (\<lambda>n. rx_match rs (drop n s))
       [0 ..< Suc (length (takeWhile (\<lambda>c. \<not> is_line_terminator c) s))]"
| "rx_match (Not_ahead as # rs) s = (\<not> rx_match as s \<and> rx_match rs s)"
| "rx_match (Word_end # rs) s = ((s = [] \<or> \<not> is_word_char (hd s)) \<and> rx_match rs s)"

text \<open>Commands that do not modify state skip the confirmation.\<close>

definition READ_ONLY_PATTERNS :: "rx list list" where
  "READ_ONLY_PATTERNS =
     [[One_of [''pr'', ''issue'', ''release'', ''repo''], Spaces,
       One_of [''list'', ''view'', ''status'', ''diff'', ''checks'', ''ready'']],
      [Lit ''auth'', Spaces, Lit ''status''],
      [Lit ''api'', Spaces, Any_chars, Lit ''--method'', Spaces, Lit ''GET''],
      [Lit ''api'', Spaces, Not_ahead [Any_chars, Lit ''--method'']],
      [Lit ''search'', Spaces],
      [Lit ''browse'', Spaces]]"

definition isReadOnly :: "string \<Rightarrow> bool" where
  "isReadOnly command = list_ex (\<lambda>pattern. rx_match pattern (trim command)) READ_ONLY_PATTERNS"

text \<open>Global commands work from any directory.\<close>

definition GLOBAL_COMMAND_PATTERNS :: "rx list list" where
  "GLOBAL_COMMAND_PATTERNS =
     [[Lit ''search'', Spaces],
      [Lit ''api'', Spaces, Lit ''/user''],
      [Lit ''api'', Spaces, Lit ''/notifications''],
      [Lit ''auth'', Spaces],
      [Lit ''config'', Spaces],
      [Lit ''status'', Word_end]]"

definition isGlobalCommand :: "string \<Rightarrow> bool" where
  "isGlobalCommand command =
     list_ex (\<lambda>pattern. rx_match pattern (trim command)) GLOBAL_COMMAND_PATTERNS"

text \<open>
  \<open>command.match(/--flag\s+/)\<close>, for a flag name of plain letters: the text behind the
  leftmost \<open>--flag\<close> that is followed by white space, and behind that white space.
\<close>

fun after_flag :: "string \<Rightarrow> string \<Rightarrow> string option" where
  "after_flag flag [] = None"
| "after_flag flag (c # cs) =
     (let behind = drop (length (''--'' @ flag)) (c # cs)
      in if startsWith (c # cs) (''--'' @ flag) \<and> behind \<noteq> [] \<and> is_space (hd behind)
         then Some (dropWhile is_space behind)
         else after_flag flag cs)"

text \<open>\<open>s.replace(/\\(.)/g, "$1")\<close>: a backslash before a character of the line is dropped.\<close>

fun unescape :: "string \<Rightarrow> string" where
  "unescape (c # d # cs) =
     (if c = CHR 0x5C \<and> \<not> is_line_terminator d then d # unescape cs
      else c # unescape (d # cs))"
| "unescape cs = cs"

text \<open>
  The loop of \<open>extractFlag\<close> for a quoted value: \<open>seen\<close> is the text behind the opening
  quote read so far and \<open>prev\<close> the character before the one looked at. The value ends
  at the first quote that no backslash stands before; without such a quote it is all
  the text behind the opening quote, as it is.
\<close>

fun quoted_value :: "char \<Rightarrow> char \<Rightarrow> string \<Rightarrow> string \<Rightarrow> string" where
  "quoted_value quoteChar prev seen [] = seen"
| "quoted_value quoteChar prev seen (c # cs) =
     (if c = quoteChar \<and> prev \<noteq> CHR 0x5C then unescape seen
      else quoted_value quoteChar c (seen @ [c]) cs)"

definition extractFlag :: "string \<Rightarrow> string \<Rightarrow> string option" where
  "extractFlag command flag =
     (case after_flag flag command of
        None \<Rightarrow> None
      | Some rest \<Rightarrow>
          (case rest of
             [] \<Rightarrow> None
           | quoteChar # behind \<Rightarrow>
               if quoteChar = CHR 0x22 \<or> quoteChar = CHR 0x27
               then Some (quoted_value quoteChar quoteChar [] behind)
               else Some (takeWhile (\<lambda>c. \<not> is_space c) rest)))"

text \<open>
  What the tool reads from its context when it is called: the authentication error and
  the values of \<open>getAccount()\<close>, \<open>getConfigDir()\<close> and \<open>getRepoOwner()\<close>.
\<close>

record gh_ctx =
  authError :: "string option"
  getAccount :: string
  getConfigDir :: string
  getRepoOwner :: "string option"

definition repo_flag_message :: string where
  "repo_flag_message = ''The --repo flag is not supported. Repo-scoped commands must be run from within the repository directory. Use the workspace tool to open a session in the correct repo, or cd there first.''"

definition no_repo_message :: string where
  "no_repo_message = ''Not in a GitHub repository. Repo-scoped commands (pr, issue, release, etc.) must be run from within a GitHub repo directory. Use the workspace tool to open a session in the correct repo, or cd there first.''"

definition wait_message :: string where
  "wait_message = ''A GitHub confirmation is already awaiting user feedback. Wait for the user to respond before calling this tool again.''"

text \<open>
  The text returned after the user has pressed escape. Its dash is U+2014, which is not
  a code unit of the alphabet; it stands here as its three bytes in UTF-8.
\<close>

definition cancelled_message :: string where
  "cancelled_message = ''User pressed escape '' @ [CHR 0xE2, CHR 0x80, CHR 0x94]
     @ '' action cancelled. They want to discuss before proceeding. Ask what''
     @ [CHR 0x27] @ ''s on their mind. Do not attempt this action through other means (e.g., bash).''"

text \<open>
  \<open>execute\<close> of the github tool is an \<open>async\<close> function with two \<open>await\<close>s: the
  confirmation modal and the subprocess. A call runs without interruption from its start
  to the first \<open>await\<close> it reaches, and from the answer of an \<open>await\<close> to the next one or
  to its end; other calls run in between. So the call is modelled in three pieces, each
  a function of the module variable \<open>confirmationInProgress\<close> where it reads or writes
  it. A piece ends with the result returned, with an exception, or suspended at an
  \<open>await\<close>. What the modal shows does not enter the result; the answer of the user is
  an input.
\<close>

datatype pending =
    Await_modal string string string
  | Await_exec string string

datatype outcome =
    Return tool_result
  | Throw
  | Suspend pending

datatype modal_answer = Confirmed | Escaped | Modal_failed

definition gh_command_line :: "string \<Rightarrow> string \<Rightarrow> string" where
  "gh_command_line configDir command =
     ''GH_CONFIG_DIR='' @ [CHR 0x22] @ configDir @ [CHR 0x22] @ '' gh '' @ command"

text \<open>From the call to the first \<open>await\<close>.\<close>

definition github_execute :: "bool \<Rightarrow> gh_ctx \<Rightarrow> string \<Rightarrow> bool \<times> outcome" where
  "github_execute confirmationInProgress ctx command =
     (if truthy (authError ctx) then
        (confirmationInProgress, Return (error_result (''github: '' @ the (authError ctx))))
      else
        (let repoFlag = extractFlag command ''repo'';
             isGlobal = isGlobalCommand command
         in if \<not> isGlobal \<and> truthy repoFlag then
              (confirmationInProgress, Return (error_result repo_flag_message))
            else if \<not> isGlobal \<and> \<not> truthy (getRepoOwner ctx) then
              (confirmationInProgress, Return (error_result no_repo_message))
            else
              (let account = getAccount ctx;
                   configDir = getConfigDir ctx
               in if \<not> isReadOnly command then
                    (if confirmationInProgress then
                       (confirmationInProgress, Return (error_result wait_message))
                     else (True, Suspend (Await_modal command account configDir)))
                  else
                    (confirmationInProgress,
                     Suspend (Await_exec (gh_command_line configDir command) account)))))"

text \<open>
  From the answer of the modal on: the \<open>finally\<close> block clears the flag whatever the
  answer is, also when \<open>showConfirmModal\<close> fails.
\<close>

definition github_after_modal ::
  "string \<Rightarrow> string \<Rightarrow> string \<Rightarrow> modal_answer \<Rightarrow> bool \<times> outcome" where
  "github_after_modal command account configDir answer =
     (False,
      case answer of
        Modal_failed \<Rightarrow> Throw
      | Escaped \<Rightarrow>
          Return \<lparr>result_text = cancelled_message, details = Some (-1, account), isError = True\<rparr>
      | Confirmed \<Rightarrow> Suspend (Await_exec (gh_command_line configDir command) account))"

text \<open>From the answer of \<open>pi.exec\<close> on; \<open>None\<close> is a rejected promise.\<close>

definition github_after_exec :: "string \<Rightarrow> exec_result option \<Rightarrow> outcome" where
  "github_after_exec account answer =
     (case answer of
        None \<Rightarrow> Throw
      | Some result \<Rightarrow>
          (let output = trim (join_with [CHR 0x0A] (filter (\<lambda>s. s \<noteq> []) [stdout result, stderr result]));
               header = ''['' @ account @ '']'';
               body = (if output \<noteq> [] then output else ''(no output)'')
           in Return \<lparr>result_text = header @ '' '' @ body,
                      details = Some (code result, account),
                      isError = (code result \<noteq> 0)\<rparr>))"

text \<open>
  The tool as a whole: the module variable, the calls that are suspended, each under the
  identifier of its call, and the calls that have ended, in the order they ended in.
\<close>

record github_tool =
  confirmationInProgress :: bool
  suspended :: "(nat \<times> pending) list"
  ended :: "(nat \<times> outcome) list"

definition initial_tool :: github_tool where
  "initial_tool = \<lparr>confirmationInProgress = False, suspended = [], ended = []\<rparr>"

datatype event =
    Call nat gh_ctx string
  | Modal_answer nat modal_answer
  | Exec_answer nat "exec_result option"

text \<open>A piece has run: the call is suspended again, or it has ended.\<close>

definition settle :: "github_tool \<Rightarrow> nat \<Rightarrow> bool \<times> outcome \<Rightarrow> github_tool" where
  "settle t i r =
     (let others = filter (\<lambda>p. fst p \<noteq> i) (suspended t)
      in case snd r of
           Suspend p \<Rightarrow> t\<lparr>confirmationInProgress := fst r, suspended := others @ [(i, p)]\<rparr>
         | out \<Rightarrow> t\<lparr>confirmationInProgress := fst r, suspended := others,
                     ended := ended t @ [(i, out)]\<rparr>)"

text \<open>
  One step of the tool. A call starts under an identifier that no suspended call has; an
  answer goes to the call that waits for it. Any other event cannot happen and leaves the
  tool as it is.
\<close>

definition step :: "github_tool \<Rightarrow> event \<Rightarrow> github_tool" where
  "step t e =
     (case e of
        Call i ctx command \<Rightarrow>
          (if map_of (suspended t) i \<noteq> None then t
           else settle t i (github_execute (confirmationInProgress t) ctx command))
      | Modal_answer i answer \<Rightarrow>
          (case map_of (suspended t) i of
             Some (Await_modal command account configDir) \<Rightarrow>
               settle t i (github_after_modal command account configDir answer)
           | _ \<Rightarrow> t)
      | Exec_answer i answer \<Rightarrow>
          (case map_of (suspended t) i of
             Some (Await_exec fullCommand account) \<Rightarrow>
               settle t i (confirmationInProgress t, github_after_exec account answer)
           | _ \<Rightarrow> t))"

definition run :: "event list \<Rightarrow> github_tool" where
  "run events = foldl step initial_tool events"






section \<open>Properties of the command gate\<close>

lemma replies_pattern_segments:
  "length (split_char CHR ''/'' ''repos/*/pulls/*/comments/*/replies'') = 7 \<and>
   length (split_char CHR ''/'' ''repos/o/r/pulls/3/comments/9/replies'') = 8"
  by code_simp

lemma replies_endpoint_no_match:
  "\<not> matchesPattern ''repos/o/r/pulls/3/comments/9/replies'' ''repos/*/pulls/*/comments/*/replies''"
  by code_simp

lemma split_char_none: "d \<notin> set s \<Longrightarrow> split_char d s = [s]"
  by (induction s) auto

lemma split_char_first: "d \<notin> set a \<Longrightarrow> split_char d (a @ d # b) = a # split_char d b"
  by (induction a) auto

text \<open>
  An endpoint of the reply API has eight segments, of which the owner, the repository,
  the pull request and the comment vary. The only entry for replies has seven.
\<close>

lemma replies_endpoints_never_match:
  assumes "CHR ''/'' \<notin> set ownr" and "CHR ''/'' \<notin> set rname"
    and "CHR ''/'' \<notin> set pull" and "CHR ''/'' \<notin> set comment"
  shows "\<not> matchesPattern
           (''repos/'' @ ownr @ ''/'' @ rname @ ''/pulls/'' @ pull @ ''/comments/'' @ comment
              @ ''/replies'')
           ''repos/*/pulls/*/comments/*/replies''"
proof -
  have "length (split_char CHR ''/''
          (''repos/'' @ ownr @ ''/'' @ rname @ ''/pulls/'' @ pull @ ''/comments/'' @ comment
              @ ''/replies'')) = 8"
    using assms by (simp add: split_char_first split_char_none)
  then show ?thesis
    using replies_pattern_segments by (simp add: matchesPattern_def)
qed

text \<open>
  C1. The claim: the API command for the endpoint \<open>repos/o/r/pulls/3/comments/9/replies\<close>
  is allowed with \<open>-X POST\<close> and rejected with the method GET. On the code the endpoint
  has eight segments (owner and repository are two of them) and the entry
  \<open>api repos/*/pulls/*/comments/*/replies\<close> has seven, so \<open>matchesPattern\<close> fails on the
  segment count and the command is rejected whatever its method: with \<open>-X POST\<close>, with
  \<open>-X GET\<close> and with no method at all, each time as a command that is not in the allow
  list.
\<close>

theorem replies_endpoint_rejected_for_every_method:
  "isCommandAllowed ''api repos/o/r/pulls/3/comments/9/replies -X POST'' =
     \<lparr>allowed = False,
      reason = Some ''Command not in allow list: api repos/o/r/pulls/3/comments/9/replies. Allowed: issue create, issue comment, issue view, issue list, issue edit, pr create, pr comment, pr view, pr list, pr diff, pr review, pr edit''\<rparr>
   \<and> isCommandAllowed ''api repos/o/r/pulls/3/comments/9/replies -X GET'' =
     isCommandAllowed ''api repos/o/r/pulls/3/comments/9/replies -X POST''
   \<and> isCommandAllowed ''api repos/o/r/pulls/3/comments/9/replies'' =
     isCommandAllowed ''api repos/o/r/pulls/3/comments/9/replies -X POST''"
  by code_simp

text \<open>
  C2. The command \<open>pr list\<close> is allowed. The command \<open>pr merge 5\<close> is rejected, and its
  reason lists the allowed commands that are not API entries; every allowed entry that
  starts with \<open>pr\<close> is part of that text.
\<close>

theorem pr_list_allowed_pr_merge_rejected:
  "isCommandAllowed ''pr list'' = \<lparr>allowed = True, reason = None\<rparr>
   \<and> isCommandAllowed ''pr merge 5'' =
     \<lparr>allowed = False,
      reason = Some ''Command not in allow list: pr merge. Allowed: issue create, issue comment, issue view, issue list, issue edit, pr create, pr comment, pr view, pr list, pr diff, pr review, pr edit''\<rparr>
   \<and> list_all (str_includes (the (reason (isCommandAllowed ''pr merge 5''))))
        (filter (\<lambda>a. startsWith a ''pr '') ALLOWED_COMMANDS)
   \<and> filter (\<lambda>a. startsWith a ''pr '') ALLOWED_COMMANDS =
       [''pr create'', ''pr comment'', ''pr view'', ''pr list'', ''pr diff'', ''pr review'', ''pr edit'']"
  by code_simp

text \<open>Which strings split into a single piece: those without white space.\<close>

lemma split_ws_not_Nil: "split_ws s \<noteq> []"
  by (induction s rule: split_ws.induct) (auto split: list.splits)

lemma split_ws_single:
  "length (split_ws s) < 2 \<longleftrightarrow> \<not> list_ex is_space s"
proof (induction s rule: split_ws.induct)
  case 1
  show ?case by simp
next
  case (2 c cs)
  show ?case
  proof (cases "is_space c")
    case True
    then show ?thesis
      using split_ws_not_Nil [of "dropWhile is_space cs"]
      by (cases "split_ws (dropWhile is_space cs)") auto
  next
    case False
    then show ?thesis
      using 2(2) split_ws_not_Nil [of cs]
      by (cases "split_ws cs") auto
  qed
qed

text \<open>
  C10. A command whose trimmed text splits into fewer than two pieces is rejected, with
  the reason that a command and a subcommand are required. These are the commands whose
  trimmed text has no white space in it.
\<close>

theorem fewer_than_two_tokens_rejected:
  "(length (split_ws (trim command)) < 2 \<longrightarrow>
      isCommandAllowed command =
        \<lparr>allowed = False,
         reason = Some ''Command requires at least: gh_agent <command> <subcommand>''\<rparr>)
   \<and> (length (split_ws (trim command)) < 2 \<longleftrightarrow> \<not> list_ex is_space (trim command))"
  by (simp add: isCommandAllowed_def Let_def split_ws_single)

theorem fewer_than_two_tokens_rejected_witness:
  "length (split_ws (trim ''pr'')) < 2
   \<and> isCommandAllowed ''pr'' =
     \<lparr>allowed = False,
      reason = Some ''Command requires at least: gh_agent <command> <subcommand>''\<rparr>
   \<and> length (split_ws (trim [])) < 2
   \<and> isCommandAllowed [] =
     \<lparr>allowed = False,
      reason = Some ''Command requires at least: gh_agent <command> <subcommand>''\<rparr>
   \<and> matches_plain (''pr'' @ '' '' @ ''list'') ALLOWED_COMMANDS"
proof -
  have h1: "length (split_ws (trim ''pr'')) < 2" by code_simp
  have h2: "length (split_ws (trim [])) < 2" by code_simp
  have h3: "matches_plain (''pr'' @ '' '' @ ''list'') ALLOWED_COMMANDS" by code_simp
  show ?thesis
    using h1 h2 h3
      fewer_than_two_tokens_rejected [of "''pr''"] fewer_than_two_tokens_rejected [of "[]"]
    by simp
qed


section \<open>Properties of the identity resolver\<close>

text \<open>
  C4. \<open>getAccountForRepo\<close> returns the agent account \<open>john-agent\<close> exactly when the
  owner is the string \<open>dyreby\<close>, and the personal account \<open>dyreby\<close> for every other
  owner and for \<open>null\<close>.
\<close>

theorem getAccountForRepo_agent_iff:
  "(getAccountForRepo repoOwner = ''john-agent'' \<longleftrightarrow> repoOwner = Some ''dyreby'')
   \<and> (getAccountForRepo repoOwner = ''dyreby'' \<longleftrightarrow> repoOwner \<noteq> Some ''dyreby'')
   \<and> getAccountForRepo None = ''dyreby''
   \<and> agent ACCOUNTS = ''john-agent'' \<and> personal ACCOUNTS = ''dyreby''"
  by (simp add: getAccountForRepo_def ACCOUNTS_def)

lemma startsWith_append: "startsWith (p @ s) p"
  by (simp add: startsWith_def)

lemma startsWith_includes: "startsWith s p \<Longrightarrow> str_includes s p"
  by (cases s) (auto simp: startsWith_def)

lemma owner_match_here_form:
  assumes "owner \<noteq> []" and "CHR ''/'' \<notin> set owner"
  shows "owner_match_here lit (lit @ owner @ ''/'' @ repository) = Some owner"
proof -
  have t: "takeWhile (\<lambda>c. c \<noteq> CHR ''/'') (owner @ CHR ''/'' # repository) = owner"
    using assms(2) by (induction owner) auto
  have d: "dropWhile (\<lambda>c. c \<noteq> CHR ''/'') (owner @ CHR ''/'' # repository) = CHR ''/'' # repository"
    using assms(2) by (induction owner) auto
  show ?thesis
    using assms(1) t d by (simp add: owner_match_here_def startsWith_append)
qed

lemma owner_search_head:
  "owner_match_here lit s = Some owner \<Longrightarrow> owner_search lit s = Some owner"
  by (cases s) simp_all

lemma owner_search_none:
  "\<not> str_includes s lit \<Longrightarrow> owner_search lit s = None"
  by (induction s)
     (auto simp: owner_match_here_def startsWith_includes split: option.splits if_splits)

text \<open>
  Where the search starts at the head of the text: for an owner that is not empty and
  has no \<open>/\<close>, the SSH form \<open>git@github.com:owner/repo\<close> gives the owner, whatever
  follows the second \<open>/\<close> (so with or without \<open>.git\<close>), and the HTTPS form
  \<open>https://github.com/owner/repo\<close> gives the owner when the URL does not contain the text
  \<open>git@github.com:\<close>. A string that contains neither \<open>git@github.com:\<close> nor
  \<open>https://github.com/\<close> gives \<open>null\<close>.
\<close>

lemma parseRepoOwner_forms:
  "(owner \<noteq> [] \<and> CHR ''/'' \<notin> set owner \<longrightarrow>
      parseRepoOwner (''git@github.com:'' @ owner @ ''/'' @ repository) = Some owner)
   \<and> (owner \<noteq> [] \<and> CHR ''/'' \<notin> set owner
        \<and> \<not> str_includes (''https://github.com/'' @ owner @ ''/'' @ repository) ''git@github.com:'' \<longrightarrow>
      parseRepoOwner (''https://github.com/'' @ owner @ ''/'' @ repository) = Some owner)
   \<and> (\<not> str_includes s ''git@github.com:'' \<and> \<not> str_includes s ''https://github.com/'' \<longrightarrow>
      parseRepoOwner s = None)"
proof (intro conjI impI)
  assume a: "owner \<noteq> [] \<and> CHR ''/'' \<notin> set owner"
  then have "owner_search ''git@github.com:'' (''git@github.com:'' @ owner @ ''/'' @ repository)
             = Some owner"
    by (intro owner_search_head owner_match_here_form) simp_all
  then show "parseRepoOwner (''git@github.com:'' @ owner @ ''/'' @ repository) = Some owner"
    by (simp add: parseRepoOwner_def)
next
  assume a: "owner \<noteq> [] \<and> CHR ''/'' \<notin> set owner
        \<and> \<not> str_includes (''https://github.com/'' @ owner @ ''/'' @ repository) ''git@github.com:''"
  then have n: "owner_search ''git@github.com:'' (''https://github.com/'' @ owner @ ''/'' @ repository)
                = None"
    by (intro owner_search_none) simp
  from a have "owner_search ''https://github.com/'' (''https://github.com/'' @ owner @ ''/'' @ repository)
             = Some owner"
    by (intro owner_search_head owner_match_here_form) simp_all
  with n show "parseRepoOwner (''https://github.com/'' @ owner @ ''/'' @ repository) = Some owner"
    by (simp add: parseRepoOwner_def)
next
  assume "\<not> str_includes s ''git@github.com:'' \<and> \<not> str_includes s ''https://github.com/''"
  then show "parseRepoOwner s = None"
    by (simp add: parseRepoOwner_def owner_search_none)
qed

lemma parseRepoOwner_forms_examples:
  "parseRepoOwner ''git@github.com:dyreby/collaboration-framework.git'' = Some ''dyreby''
   \<and> parseRepoOwner ''git@github.com:octocat/hello-world'' = Some ''octocat''
   \<and> parseRepoOwner ''https://github.com/dyreby/collaboration-framework.git'' = Some ''dyreby''
   \<and> parseRepoOwner ''https://github.com/microsoft/vscode'' = Some ''microsoft''
   \<and> parseRepoOwner ''git@gitlab.com:user/repo.git'' = None
   \<and> parseRepoOwner ''not-a-url'' = None"
proof -
  have i1: "\<not> str_includes (''https://github.com/'' @ ''dyreby'' @ ''/'' @ ''collaboration-framework.git'')
              ''git@github.com:''"
    by code_simp
  have i2: "\<not> str_includes (''https://github.com/'' @ ''microsoft'' @ ''/'' @ ''vscode'')
              ''git@github.com:''"
    by code_simp
  have i3: "\<not> str_includes ''git@gitlab.com:user/repo.git'' ''git@github.com:''
            \<and> \<not> str_includes ''git@gitlab.com:user/repo.git'' ''https://github.com/''"
    by code_simp
  have i4: "\<not> str_includes ''not-a-url'' ''git@github.com:''
            \<and> \<not> str_includes ''not-a-url'' ''https://github.com/''"
    by code_simp
  show ?thesis
    using i1 i2 i3 i4
      parseRepoOwner_forms [of "''dyreby''" "''collaboration-framework.git''" "''git@gitlab.com:user/repo.git''"]
      parseRepoOwner_forms [of "''octocat''" "''hello-world''" "''not-a-url''"]
      parseRepoOwner_forms [of "''microsoft''" "''vscode''" "''not-a-url''"]
    by simp
qed

text \<open>
  C3. The claim: a GitHub URL of the SSH or the HTTPS form gives its owner, and a URL of
  another host or a malformed string gives \<open>null\<close>. The two expressions name the host
  but have no anchor at the start, so the search finds a GitHub prefix anywhere in the
  text: a URL of another host whose path holds one gives an owner, not \<open>null\<close>; through
  a proxy in front of a \<open>dyreby\<close> repository the agent account is chosen for a
  repository that is not on GitHub; and the SSH expression, tried first, is found inside
  an HTTPS URL, whose owner segment is then not what is returned.
\<close>

theorem parseRepoOwner_unanchored:
  "parseRepoOwner ''https://example.com/git@github.com:octocat/hello'' = Some ''octocat''
   \<and> parseRepoOwner ''https://ghproxy.com/https://github.com/dyreby/x.git'' = Some ''dyreby''
   \<and> getAccountForRepo (parseRepoOwner ''https://ghproxy.com/https://github.com/dyreby/x.git'')
       = ''john-agent''
   \<and> parseRepoOwner ''https://github.com/git@github.com:x/r'' = Some ''x''"
  by code_simp


section \<open>Properties of marker extraction\<close>

lemma backtick_not_name_char: "\<not> is_name_char (CHR 0x60)"
  by (simp add: is_name_char_def)

lemma startsWith_iff: "startsWith s p \<longleftrightarrow> (\<exists>r. s = p @ r)"
proof
  assume "startsWith s p"
  then have "s = p @ drop (length p) s"
    by (metis append_take_drop_id startsWith_def)
  then show "\<exists>r. s = p @ r" ..
next
  assume "\<exists>r. s = p @ r"
  then show "startsWith s p" by (auto simp: startsWith_def)
qed

lemma takeWhile_name:
  "list_all is_name_char n \<Longrightarrow> takeWhile is_name_char (n @ CHR 0x60 # r) = n"
  by (induction n) (simp_all add: backtick_not_name_char)

lemma dropWhile_name:
  "list_all is_name_char n \<Longrightarrow> dropWhile is_name_char (n @ CHR 0x60 # r) = CHR 0x60 # r"
  by (induction n) (simp_all add: backtick_not_name_char)

lemma marker_here_marker:
  "valid_name n \<Longrightarrow> marker_here (marker_text n @ r) = Some (n, r)"
  by (simp add: marker_here_def marker_text_def valid_name_def startsWith_def
      takeWhile_name dropWhile_name)

lemma marker_here_SomeD:
  assumes "marker_here s = Some (n, r)"
  shows "valid_name n \<and> s = marker_text n @ r"
proof -
  from assms have sw: "startsWith s ''`cf:''"
    by (auto simp: marker_here_def split: if_splits)
  then obtain t where s: "s = ''`cf:'' @ t"
    using startsWith_iff by blast
  then have t: "drop 4 s = t" by simp
  let ?after = "dropWhile is_name_char t"
  from assms sw t have n: "n = takeWhile is_name_char t" and ne: "n \<noteq> []"
    and sa: "startsWith ?after ''`''" and r: "r = drop 1 ?after"
    by (auto simp: marker_here_def Let_def split: if_splits)
  from sa obtain u where a: "?after = ''`'' @ u"
    using startsWith_iff by blast
  with r have "u = r" by simp
  with a have a': "?after = CHR 0x60 # r" by simp
  have "t = n @ ?after" using n by simp
  with s a' have "s = ''`cf:'' @ n @ ''`'' @ r" by simp
  moreover have "list_all is_name_char n"
    unfolding n by (simp add: list_all_iff) (meson set_takeWhileD)
  ultimately show ?thesis
    using ne by (simp add: valid_name_def marker_text_def)
qed

lemma marker_here_iff:
  "marker_here s = Some (n, r) \<longleftrightarrow> valid_name n \<and> s = marker_text n @ r"
  using marker_here_SomeD marker_here_marker by blast

lemma marker_here_other_head: "CHR 0x60 \<noteq> c \<Longrightarrow> marker_here (c # cs) = None"
  by (simp add: marker_here_def startsWith_def)

lemma startsWith_marker:
  assumes "valid_name n"
  shows "startsWith s (marker_text n) \<longleftrightarrow> (\<exists>r. marker_here s = Some (n, r))"
  using assms by (auto simp: startsWith_iff marker_here_iff)

lemma all_markers_skip:
  "CHR 0x60 \<notin> set xs \<Longrightarrow> all_markers (xs @ ys) = all_markers ys"
  by (induction xs) (simp_all add: marker_here_other_head)

lemma shares_backtick_suffix: "shares_backtick ys \<Longrightarrow> shares_backtick (xs @ ys)"
  by (induction xs) simp_all

lemma valid_name_no_backtick: "valid_name n \<Longrightarrow> CHR 0x60 \<notin> set n"
  using backtick_not_name_char by (auto simp: valid_name_def list_all_iff)

lemma matchAll_all_markers: "\<not> shares_backtick s \<Longrightarrow> matchAll s = all_markers s"
proof (induction s rule: matchAll.induct)
  case 1
  show ?case by simp
next
  case (2 c cs)
  show ?case
  proof (cases "marker_here (c # cs)")
    case None
    with 2 show ?thesis by simp
  next
    case (Some nr)
    obtain n r where nr: "nr = (n, r)" by (cases nr)
    from Some nr have v: "valid_name n" and s: "c # cs = marker_text n @ r"
      using marker_here_SomeD by blast+
    from s have cs: "cs = (''cf:'' @ n) @ CHR 0x60 # r"
      by (simp add: marker_text_def)
    from "2.prems" have no_cs: "\<not> shares_backtick cs" by simp
    have next_none: "marker_here (CHR 0x60 # r) = None"
    proof (cases "marker_here (CHR 0x60 # r)")
      case None
      then show ?thesis .
    next
      case (Some y)
      with "2.prems" \<open>marker_here (c # cs) = Some nr\<close> nr show ?thesis by simp
    qed
    from no_cs have "\<not> shares_backtick (CHR 0x60 # r)"
      using shares_backtick_suffix [of "CHR 0x60 # r" "''cf:'' @ n"] cs by auto
    then have no_r: "\<not> shares_backtick r" by simp
    have "all_markers cs = all_markers (CHR 0x60 # r)"
      unfolding cs using v by (intro all_markers_skip) (auto dest: valid_name_no_backtick)
    also have "\<dots> = all_markers r" using next_none by simp
    finally have "all_markers cs = all_markers r" .
    moreover have "matchAll r = all_markers r"
      using "2.IH"(2) [OF Some nr [symmetric] no_r] .
    ultimately show ?thesis using Some nr by simp
  qed
qed

lemma count_all_markers:
  assumes "valid_name n"
  shows "count_list (all_markers s) n = count_occurrences (marker_text n) s"
proof (induction s)
  case Nil
  show ?case by (simp add: marker_text_def)
next
  case (Cons c cs)
  show ?case
  proof (cases "marker_here (c # cs)")
    case None
    then have "\<not> startsWith (c # cs) (marker_text n)"
      using startsWith_marker [OF assms] by simp
    with None Cons show ?thesis by simp
  next
    case (Some nr)
    obtain n' r where nr: "nr = (n', r)" by (cases nr)
    have "startsWith (c # cs) (marker_text n) \<longleftrightarrow> n' = n"
      using startsWith_marker [OF assms, of "c # cs"] Some nr by auto
    with Some nr Cons show ?thesis by simp
  qed
qed

lemma map_of_map_set: "map_of (map_set k v m) = (map_of m)(k \<mapsto> v)"
  by (induction m) auto

lemma get_or_zero_count_matches:
  "get_or_zero (count_matches ms cts) n = get_or_zero cts n + count_list ms n"
  by (induction ms arbitrary: cts) (auto simp: get_or_zero_def map_of_map_set)

lemma matchAll_valid: "n \<in> set (matchAll s) \<Longrightarrow> valid_name n"
proof (induction s rule: matchAll.induct)
  case 1
  then show ?case by simp
next
  case (2 c cs)
  then show ?case
    by (cases "marker_here (c # cs)") (auto dest: marker_here_SomeD)
qed

lemma matchAll_no_backtick: "CHR 0x60 \<notin> set s \<Longrightarrow> matchAll s = []"
  by (induction s) (simp_all add: marker_here_other_head)

text \<open>
  C6, the claim as written: every occurrence of a marker is counted. A marker whose
  opening backtick is the closing backtick of the marker before it is not: the scan
  resumes behind the match. The text \<open>`cf:a`cf:b`\<close> contains the marker of \<open>b\<close> once,
  at its sixth character, and the result counts \<open>a\<close> alone.
\<close>

theorem parseConceptMarkers_skips_shared_backtick:
  "parseConceptMarkers ''`cf:a`cf:b`'' = [(''a'', 1)]
   \<and> get_or_zero (parseConceptMarkers ''`cf:a`cf:b`'') ''b'' = 0
   \<and> count_occurrences (marker_text ''b'') ''`cf:a`cf:b`'' = 1
   \<and> drop 5 ''`cf:a`cf:b`'' = marker_text ''b''"
  by code_simp

text \<open>
  C6, amended. The text \<open>See `cf:a` and `cf:a` and `cf:b`.\<close> gives the counts
  \<open>a: 2, b: 1\<close>. In a text where no two markers share a backtick, the count of every
  name is the number of occurrences of its marker, \<open>`cf:\<close>, the name and a backtick; in
  every text, a string that is not a name (one or more characters of \<open>[A-Za-z0-9_-]\<close>)
  has no count, and a text without a backtick has no markers at all.
\<close>

theorem parseConceptMarkers_counts_occurrences:
  "parseConceptMarkers ''See `cf:a` and `cf:a` and `cf:b`.'' = [(''a'', 2), (''b'', 1)]
   \<and> (\<not> shares_backtick text \<and> valid_name name \<longrightarrow>
        get_or_zero (parseConceptMarkers text) name = count_occurrences (marker_text name) text)
   \<and> (\<not> valid_name name \<longrightarrow> map_of (parseConceptMarkers text) name = None)
   \<and> (CHR 0x60 \<notin> set text \<longrightarrow> parseConceptMarkers text = [])"
proof (intro conjI impI)
  show "parseConceptMarkers ''See `cf:a` and `cf:a` and `cf:b`.'' = [(''a'', 2), (''b'', 1)]"
    by code_simp
next
  assume a: "\<not> shares_backtick text \<and> valid_name name"
  have "get_or_zero (parseConceptMarkers text) name = count_list (matchAll text) name"
    using get_or_zero_count_matches [of "matchAll text" "[]" name]
    by (simp add: parseConceptMarkers_def get_or_zero_def)
  also have "\<dots> = count_list (all_markers text) name"
    using a by (simp add: matchAll_all_markers)
  also have "\<dots> = count_occurrences (marker_text name) text"
    using a by (simp add: count_all_markers)
  finally show "get_or_zero (parseConceptMarkers text) name
                = count_occurrences (marker_text name) text" .
next
  assume "\<not> valid_name name"
  then have "name \<notin> set (matchAll text)"
    using matchAll_valid by blast
  then have "count_list (matchAll text) name = 0" by simp
  then have z: "get_or_zero (parseConceptMarkers text) name = 0"
    using get_or_zero_count_matches [of "matchAll text" "[]" name]
    by (simp add: parseConceptMarkers_def get_or_zero_def)
  have pos: "\<And>ms cts. (\<forall>k c. map_of cts k = Some c \<longrightarrow> 0 < c) \<Longrightarrow>
               map_of (count_matches ms cts) name = Some 0 \<Longrightarrow> False"
  proof -
    fix ms :: "string list" and cts :: "(string \<times> nat) list"
    show "(\<forall>k c. map_of cts k = Some c \<longrightarrow> 0 < c) \<Longrightarrow>
          map_of (count_matches ms cts) name = Some 0 \<Longrightarrow> False"
    proof (induction ms arbitrary: cts)
      case Nil
      then show ?case by auto
    next
      case (Cons m ms)
      have "\<forall>k c. map_of (map_set m (get_or_zero cts m + 1) cts) k = Some c \<longrightarrow> 0 < c"
        using Cons.prems(1) by (auto simp: map_of_map_set)
      then show ?case using Cons.IH Cons.prems(2) by simp
    qed
  qed
  show "map_of (parseConceptMarkers text) name = None"
  proof (cases "map_of (parseConceptMarkers text) name")
    case None
    then show ?thesis .
  next
    case (Some c)
    with z have "c = 0" by (simp add: get_or_zero_def)
    with Some pos [of "[]" "matchAll text"] show ?thesis
      by (simp add: parseConceptMarkers_def)
  qed
next
  assume "CHR 0x60 \<notin> set text"
  then show "parseConceptMarkers text = []"
    by (simp add: parseConceptMarkers_def matchAll_no_backtick)
qed

theorem parseConceptMarkers_counts_occurrences_witness:
  "\<not> shares_backtick ''See `cf:a` and `cf:a` and `cf:b`.''
   \<and> valid_name ''a'' \<and> valid_name ''b'' \<and> \<not> valid_name ''a b''
   \<and> get_or_zero (parseConceptMarkers ''See `cf:a` and `cf:a` and `cf:b`.'') ''a'' = 2
   \<and> count_occurrences (marker_text ''a'') ''See `cf:a` and `cf:a` and `cf:b`.'' = 2
   \<and> get_or_zero (parseConceptMarkers ''See `cf:a` and `cf:a` and `cf:b`.'') ''b'' = 1
   \<and> count_occurrences (marker_text ''b'') ''See `cf:a` and `cf:a` and `cf:b`.'' = 1
   \<and> map_of (parseConceptMarkers ''See `cf:a b` and `cf:a`'') ''a b'' = None
   \<and> CHR 0x60 \<notin> set ''See [[cf:a]] and cf:b''
   \<and> parseConceptMarkers ''See [[cf:a]] and cf:b'' = []"
proof -
  have h1: "\<not> shares_backtick ''See `cf:a` and `cf:a` and `cf:b`.''" by code_simp
  have h2: "valid_name ''a''" by code_simp
  have h3: "valid_name ''b''" by code_simp
  have h4: "\<not> valid_name ''a b''" by code_simp
  have h5: "CHR 0x60 \<notin> set ''See [[cf:a]] and cf:b''" by simp
  have c1: "count_occurrences (marker_text ''a'') ''See `cf:a` and `cf:a` and `cf:b`.'' = 2"
    by code_simp
  have c2: "count_occurrences (marker_text ''b'') ''See `cf:a` and `cf:a` and `cf:b`.'' = 1"
    by code_simp
  show ?thesis
    using h1 h2 h3 h4 h5 c1 c2
      parseConceptMarkers_counts_occurrences
        [of "''See `cf:a` and `cf:a` and `cf:b`.''" "''a''"]
      parseConceptMarkers_counts_occurrences
        [of "''See `cf:a` and `cf:a` and `cf:b`.''" "''b''"]
      parseConceptMarkers_counts_occurrences [of "''See `cf:a b` and `cf:a`''" "''a b''"]
      parseConceptMarkers_counts_occurrences [of "''See [[cf:a]] and cf:b''" "''a''"]
    by simp
qed


section \<open>Properties of recursive loading\<close>

lemma load_disjoint:
  "fst ` set (loaded st) \<inter> set (missing st) = {} \<Longrightarrow>
     fst ` set (loaded (loadConceptsRecursively files body st))
       \<inter> set (missing (loadConceptsRecursively files body st)) = {}"
  "fst ` set (loaded st) \<inter> set (missing st) = {} \<Longrightarrow>
     fst ` set (loaded (load_loop files ms st)) \<inter> set (missing (load_loop files ms st)) = {}"
proof (induct files body st and files ms st rule: loadConceptsRecursively_load_loop.induct)
  case (1 files body st)
  then show ?case by simp
next
  case (2 files st)
  then show ?case by simp
next
  case (3 files name count rest st)
  let ?st1 = "st\<lparr>counts := map_set name (get_or_zero (counts st) name + count) (counts st)\<rparr>"
  have d1: "fst ` set (loaded ?st1) \<inter> set (missing ?st1) = {}"
    using "3.prems" by simp
  show ?case
  proof (cases "map_has (loaded ?st1) name \<or> name \<in> set (missing ?st1)")
    case True
    with 3(1) [OF refl True d1] show ?thesis by simp
  next
    case False
    then have not_loaded: "name \<notin> fst ` set (loaded st)" and not_missing: "name \<notin> set (missing st)"
      by (auto simp: map_has_def map_of_eq_None_iff)
    show ?thesis
    proof (cases "loadConceptFile files name")
      case None
      have "fst ` set (loaded (?st1\<lparr>missing := set_add name (missing ?st1)\<rparr>))
            \<inter> set (missing (?st1\<lparr>missing := set_add name (missing ?st1)\<rparr>)) = {}"
        using "3.prems" not_loaded by (auto simp: set_add_def)
      with 3(2) [OF refl False None] False None show ?thesis by simp
    next
      case (Some content)
      let ?st2 = "?st1\<lparr>loaded := map_set name content (loaded ?st1)\<rparr>"
      have "fst ` set (loaded ?st2) \<inter> set (missing ?st2) = {}"
        using "3.prems" not_missing by (auto simp: keys_map_set)
      then have "fst ` set (loaded (loadConceptsRecursively files content ?st2))
            \<inter> set (missing (loadConceptsRecursively files content ?st2)) = {}"
        by (rule 3(3) [OF refl False Some])
      then have "fst ` set (loaded (load_loop files rest (loadConceptsRecursively files content ?st2)))
            \<inter> set (missing (load_loop files rest (loadConceptsRecursively files content ?st2))) = {}"
        by (rule 3(4) [OF refl False Some])
      with False Some show ?thesis by simp
    qed
  qed
qed

text \<open>
  C9. Started with empty accumulators, for every text and every concepts directory, the
  keys of the loaded map and the members of the missing set of the result are disjoint.
\<close>

theorem loaded_and_missing_disjoint:
  "fst ` set (loaded (loadConceptsRecursively files body empty_state))
     \<inter> set (missing (loadConceptsRecursively files body empty_state)) = {}"
  by (rule load_disjoint(1)) (simp add: empty_state_def)































section \<open>Properties of the workspace tool\<close>

lemma str_includes_append: "str_includes (a @ p @ b) p"
  by (induction a) (auto simp: startsWith_def intro: startsWith_includes)

text \<open>
  C7. For an argument \<open>owner/repo\<close> with one \<open>/\<close>, when the path that \<open>path.join\<close> gives
  for the repositories root, the owner and the repository does not exist, the tool
  returns an error whose text holds that path, and its list of effects is empty: no
  subprocess is started and no file is written.
\<close>

theorem missing_checkout_is_reported_without_subprocess:
  assumes "repo params = owner @ ''/'' @ repoName"
    and "CHR ''/'' \<notin> set owner"
    and "CHR ''/'' \<notin> set repoName"
    and "\<not> existsSync env (path_join env [REPOS_BASE env, owner, repoName])"
  shows "workspace_execute env params =
           (\<lparr>result_text = ''Repo not found locally: '' @ owner @ ''/'' @ repoName @ [CHR 0x0A]
               @ ''Expected at: '' @ path_join env [REPOS_BASE env, owner, repoName]
               @ [CHR 0x0A, CHR 0x0A] @ ''Clone it first, or check the path.'',
             details = None, isError = True\<rparr>, [])
         \<and> str_includes (result_text (fst (workspace_execute env params)))
              (path_join env [REPOS_BASE env, owner, repoName])
         \<and> snd (workspace_execute env params) = []"
proof -
  let ?path = "path_join env [REPOS_BASE env, owner, repoName]"
  have parts: "split_char CHR ''/'' (repo params) = [owner, repoName]"
    using assms(1-3) by (simp add: split_char_first split_char_none)
  have nf: "findRepoPath env owner repoName = None"
    using assms(4) by (simp add: findRepoPath_def)
  have e: "workspace_execute env params =
           (\<lparr>result_text = ''Repo not found locally: '' @ owner @ ''/'' @ repoName @ [CHR 0x0A]
               @ ''Expected at: '' @ ?path
               @ [CHR 0x0A, CHR 0x0A] @ ''Clone it first, or check the path.'',
             details = None, isError = True\<rparr>, [])"
    using parts nf assms(1) by (simp add: workspace_execute_def truthy_def error_result_def)
  have "str_includes
          ((''Repo not found locally: '' @ owner @ ''/'' @ repoName @ [CHR 0x0A] @ ''Expected at: '')
            @ ?path @ ([CHR 0x0A, CHR 0x0A] @ ''Clone it first, or check the path.'')) ?path"
    by (rule str_includes_append)
  with e show ?thesis by simp
qed

theorem missing_checkout_is_reported_without_subprocess_witness:
  "workspace_execute
     \<lparr>path_join = join_with ''/'', homedir = ''/home/john'', tmpdir = ''/tmp'',
      existsSync = (\<lambda>p. p = ''/home/john/repos/dyreby/agent-kernel''),
      env_TMUX = Some ''/tmp/tmux-1000/default,3,0'',
      pi_exec = (\<lambda>c a. \<lparr>code = 0, stdout = [], stderr = []\<rparr>),
      randomUUID = ''0000''\<rparr>
     \<lparr>repo = ''dyreby/helm'', model = ''anthropic/claude-opus-4'', thinking = ''high'',
      context_label = None, prompt = Some ''Fix the bug'', orient = None\<rparr>
   = (\<lparr>result_text = ''Repo not found locally: dyreby/helm'' @ [CHR 0x0A]
         @ ''Expected at: /home/john/repos/dyreby/helm''
         @ [CHR 0x0A, CHR 0x0A] @ ''Clone it first, or check the path.'',
       details = None, isError = True\<rparr>, [])"
proof -
  let ?env = "\<lparr>path_join = join_with ''/'', homedir = ''/home/john'', tmpdir = ''/tmp'',
      existsSync = (\<lambda>p. p = ''/home/john/repos/dyreby/agent-kernel''),
      env_TMUX = Some ''/tmp/tmux-1000/default,3,0'',
      pi_exec = (\<lambda>c a. \<lparr>code = 0, stdout = [], stderr = []\<rparr>),
      randomUUID = ''0000''\<rparr>"
  let ?params = "\<lparr>repo = ''dyreby/helm'', model = ''anthropic/claude-opus-4'', thinking = ''high'',
      context_label = None, prompt = Some ''Fix the bug'', orient = None\<rparr>"
  have h1: "repo ?params = ''dyreby'' @ ''/'' @ ''helm''" by simp
  have h2: "CHR ''/'' \<notin> set ''dyreby''" by simp
  have h3: "CHR ''/'' \<notin> set ''helm''" by simp
  have h4: "\<not> existsSync ?env (path_join ?env [REPOS_BASE ?env, ''dyreby'', ''helm''])"
    by (simp add: REPOS_BASE_def)
  show ?thesis
    using missing_checkout_is_reported_without_subprocess [OF h1 h2 h3 h4]
    by (simp add: REPOS_BASE_def)
qed


section \<open>Properties of the github tool\<close>




















end
